theory Spec2Isabelle
  imports Main "HOL-Library.Word"
begin

section \<open>Bytes and C strings\<close>

text \<open>
  A C \<^verbatim>\<open>unsigned char\<close> is modelled by HOL's \<^typ>\<open>char\<close>, which has exactly the 256
  values of a byte; \<^term>\<open>of_char c :: nat\<close> is its numeric value. A byte array
  (\<^verbatim>\<open>GArray\<close> of \<^verbatim>\<open>guchar\<close>) and a character buffer are both a \<^typ>\<open>string\<close>.
  A buffer is read as a C string up to its first zero byte.
\<close>

definition c_str :: "string \<Rightarrow> string" where
  "c_str buf = takeWhile (\<lambda>c. c \<noteq> CHR 0x00) buf"

section \<open>The option decoder of nm-dhcp-manager.c\<close>

text \<open>
  The loop of \<^verbatim>\<open>garray_to_string\<close>: \<^verbatim>\<open>for (i = 0; i < array->len; i++)\<close>, reading
  \<^verbatim>\<open>array->data[i]\<close> and appending the converted byte to \<^verbatim>\<open>str\<close>. The index is a
  natural number: a bus message is far shorter than the \<^verbatim>\<open>2^31\<close> bytes at which the
  \<^verbatim>\<open>int\<close> index of the source would overflow.
\<close>

function garray_loop :: "string \<Rightarrow> nat \<Rightarrow> string \<Rightarrow> string" where
  "garray_loop data i str =
     (if i < length data then
        (let c = data ! i;
             c = (if c = CHR 0x00 then CHR '' ''
                  else if (127::nat) < of_char c then CHR ''?''
                  else c)
         in garray_loop data (Suc i) (str @ [c]))
      else str)"
  by pat_completeness auto
termination
  by (relation "measure (\<lambda>(data, i, str). length data - i)") auto

declare garray_loop.simps [simp del]

text \<open>
  \<^verbatim>\<open>garray_to_string\<close>: a \<^verbatim>\<open>NULL\<close> array (\<^term>\<open>None\<close>) returns \<^verbatim>\<open>NULL\<close>; otherwise the
  result is the buffer of the \<^verbatim>\<open>GString\<close>, with the zero byte the function appends.
  The UTF-8 check only writes a warning and leaves the result as it is.
\<close>

definition garray_to_string :: "string option \<Rightarrow> string \<Rightarrow> string option" where
  "garray_to_string array key =
     (case array of
        None \<Rightarrow> None
      | Some data \<Rightarrow> Some (garray_loop data 0 [] @ [CHR 0x00]))"

text \<open>
  A \<^verbatim>\<open>GValue\<close> of the event mapping: either of type \<^verbatim>\<open>DBUS_TYPE_G_UCHAR_ARRAY\<close>, boxing a
  pointer to a byte array (which may be \<^verbatim>\<open>NULL\<close>), or of some other type.
\<close>

datatype GValue = UCharArray "string option" | OtherType

definition get_option :: "(string \<rightharpoonup> GValue) \<Rightarrow> string \<Rightarrow> string option" where
  "get_option hash key =
     (case hash key of
        None \<Rightarrow> None
      | Some v \<Rightarrow>
          (case v of
             OtherType \<Rightarrow> None
           | UCharArray array \<Rightarrow> garray_to_string array key))"

section \<open>The C library functions the code calls\<close>

text \<open>
  \<^verbatim>\<open>strtol\<close>, \<^verbatim>\<open>strtoul\<close>, \<^verbatim>\<open>strchr\<close>, \<^verbatim>\<open>inet_pton\<close> and \<^verbatim>\<open>g_strsplit\<close> belong to the C
  library and GLib. They are modelled after their documented behaviour, on an LP64
  platform (\<^verbatim>\<open>long\<close> has 64 bits, \<^verbatim>\<open>int\<close> has 32).
\<close>

definition EINVAL :: int where "EINVAL = 22"
definition ERANGE :: int where "ERANGE = 34"

definition LONG_MAX :: int where "LONG_MAX = 2 ^ 63 - 1"
definition LONG_MIN :: int where "LONG_MIN = - (2 ^ 63)"
definition ULONG_MAX :: nat where "ULONG_MAX = 2 ^ 64 - 1"

definition isspace :: "char \<Rightarrow> bool" where
  "isspace c = (c = CHR '' '' \<or> ((9::nat) \<le> of_char c \<and> (of_char c :: nat) \<le> 13))"

definition isdigit :: "char \<Rightarrow> bool" where
  "isdigit c = ((48::nat) \<le> of_char c \<and> (of_char c :: nat) \<le> 57)"

text \<open>The value of the decimal digits at the front of a string, continuing from \<open>acc\<close>.\<close>

fun digits_value :: "nat \<Rightarrow> string \<Rightarrow> nat" where
  "digits_value acc [] = acc"
| "digits_value acc (c # cs) =
     (if isdigit c then digits_value (acc * 10 + (of_char c - 48)) cs else acc)"

text \<open>
  The subject sequence of \<^verbatim>\<open>strtol\<close> and \<^verbatim>\<open>strtoul\<close> in base 10: white space is skipped,
  one sign is read, then the longest run of digits. The result is whether the sign was
  a minus, and the digits.
\<close>

definition subject_sequence :: "string \<Rightarrow> bool \<times> string" where
  "subject_sequence nptr =
     (let s = dropWhile isspace nptr;
          neg = (case s of [] \<Rightarrow> False | c # _ \<Rightarrow> c = CHR ''-'');
          s = (case s of [] \<Rightarrow> [] | c # cs \<Rightarrow> if c = CHR ''-'' \<or> c = CHR ''+'' then cs else s)
      in (neg, takeWhile isdigit s))"

text \<open>
  \<^verbatim>\<open>strtol (nptr, NULL, 10)\<close>, from the value of \<^verbatim>\<open>errno\<close> before the call to the result and
  the value of \<^verbatim>\<open>errno\<close> after it. When there are no digits the result is 0, and \<^verbatim>\<open>errno\<close>
  becomes \<^verbatim>\<open>EINVAL\<close> only on a C library that reports it (POSIX allows both; \<open>einval\<close>
  says which). A value out of the range of \<^verbatim>\<open>long\<close> gives the nearest bound and \<^verbatim>\<open>ERANGE\<close>.
\<close>

definition strtol :: "bool \<Rightarrow> string \<Rightarrow> int \<Rightarrow> int \<times> int" where
  "strtol einval nptr errno =
     (let (neg, ds) = subject_sequence nptr in
      if ds = [] then (0, if einval then EINVAL else errno)
      else
        (let v = (if neg then - int (digits_value 0 ds) else int (digits_value 0 ds)) in
         if LONG_MAX < v then (LONG_MAX, ERANGE)
         else if v < LONG_MIN then (LONG_MIN, ERANGE)
         else (v, errno)))"

text \<open>
  \<^verbatim>\<open>strtoul (nptr, NULL, 10)\<close>: a magnitude above \<^verbatim>\<open>ULONG_MAX\<close> gives \<^verbatim>\<open>ULONG_MAX\<close> and
  \<^verbatim>\<open>ERANGE\<close>; with a minus sign the value is negated in \<^verbatim>\<open>unsigned long\<close>.
\<close>

definition strtoul :: "bool \<Rightarrow> string \<Rightarrow> int \<Rightarrow> 64 word \<times> int" where
  "strtoul einval nptr errno =
     (let (neg, ds) = subject_sequence nptr in
      if ds = [] then (0, if einval then EINVAL else errno)
      else
        (let n = digits_value 0 ds in
         if ULONG_MAX < n then (word_of_nat ULONG_MAX, ERANGE)
         else (if neg then - word_of_nat n else word_of_nat n, errno)))"

text \<open>\<^verbatim>\<open>strchr (s, c)\<close>: the index of the first \<open>c\<close> in \<open>s\<close>, or \<^verbatim>\<open>NULL\<close>.\<close>

fun strchr :: "string \<Rightarrow> char \<Rightarrow> nat option" where
  "strchr [] c = None"
| "strchr (x # xs) c = (if x = c then Some 0 else map_option Suc (strchr xs c))"

text \<open>
  Splitting at every occurrence of a one-character delimiter: \<open>n\<close> delimiters give
  \<open>n + 1\<close> pieces, some of them possibly empty.
\<close>

fun split_at :: "char \<Rightarrow> string \<Rightarrow> string list" where
  "split_at d [] = [[]]"
| "split_at d (c # cs) =
     (if c = d then [] # split_at d cs
      else (case split_at d cs of
              [] \<Rightarrow> [[c]]
            | t # ts \<Rightarrow> (c # t) # ts))"

text \<open>
  \<^verbatim>\<open>g_strsplit (string, " ", 0)\<close>: the empty string gives the empty vector, any other
  string is cut at every space.
\<close>

definition g_strsplit :: "string \<Rightarrow> string list" where
  "g_strsplit str = (if str = [] then [] else split_at CHR '' '' str)"

text \<open>
  \<^verbatim>\<open>inet_pton (AF_INET, src, &dst)\<close>, as the GNU C library does it: one pass over the
  characters, with \<^verbatim>\<open>saw_digit\<close>, the count \<^verbatim>\<open>octets\<close>, the bytes already finished and
  the byte \<^verbatim>\<open>*tp\<close> in progress. A digit after a leading zero, a byte above 255, a dot
  that follows no digit, a fifth byte and any other character are refused, and so is a
  text with fewer than four bytes.
\<close>

fun inet_pton4 :: "string \<Rightarrow> bool \<Rightarrow> nat \<Rightarrow> nat list \<Rightarrow> nat \<Rightarrow> nat list option" where
  "inet_pton4 [] saw_digit octets finished tp =
     (if octets < 4 then None else Some (finished @ [tp]))"
| "inet_pton4 (ch # src) saw_digit octets finished tp =
     (if isdigit ch then
        (let new = tp * 10 + (of_char ch - 48) in
         if saw_digit \<and> tp = 0 then None
         else if 255 < new then None
         else if \<not> saw_digit then
           (if 4 < octets + 1 then None else inet_pton4 src True (octets + 1) finished new)
         else inet_pton4 src True octets finished new)
      else if ch = CHR ''.'' \<and> saw_digit then
        (if octets = 4 then None else inet_pton4 src False octets (finished @ [tp]) 0)
      else None)"

text \<open>
  The result is \<^term>\<open>None\<close> when the call returns 0, and otherwise the address. An
  address \<^verbatim>\<open>a.b.c.d\<close> is written as the number with the bytes \<^verbatim>\<open>a\<close>, \<^verbatim>\<open>b\<close>, \<^verbatim>\<open>c\<close>, \<^verbatim>\<open>d\<close>,
  most significant first, that is \<^verbatim>\<open>ntohl (s_addr)\<close>. The \<^verbatim>\<open>guint32\<close> the code holds in
  \<^verbatim>\<open>s_addr\<close> has the same four bytes in network order, which a little-endian host reads
  as the byte-swapped number. The code only copies addresses and compares \<^verbatim>\<open>s_addr\<close>
  with 0, and \<^verbatim>\<open>s_addr\<close> is 0 exactly for \<^verbatim>\<open>0.0.0.0\<close> in either order.
\<close>

definition inet_pton :: "string \<Rightarrow> 32 word option" where
  "inet_pton src =
     (case inet_pton4 src False 0 [] 0 of
        Some [a, b, c, d] \<Rightarrow> Some (word_of_nat (((a * 256 + b) * 256 + c) * 256 + d))
      | _ \<Rightarrow> None)"

section \<open>Classless static routes of nm-dhcp-dhcpcd.c\<close>

text \<open>
  Modelled from the spec: \<^verbatim>\<open>NMIP4Route\<close>, \<^verbatim>\<open>nm_ip4_route_new\<close> and the three setters the
  code calls on the new route (\<^verbatim>\<open>nm_ip4_route_set_dest\<close>, \<^verbatim>\<open>nm_ip4_route_set_prefix\<close>,
  \<^verbatim>\<open>nm_ip4_route_set_next_hop\<close>) are not part of the files at hand. For the specification
  an Ip4Route is a destination address, a prefix length in [0,32] and a next-hop
  address (addresses written as said for \<^term>\<open>inet_pton\<close>).
\<close>

record NMIP4Route =
  dest :: "32 word"
  prefix :: "32 word"
  next_hop :: "32 word"

text \<open>
  Modelled from the spec: the prefix a route has after \<^verbatim>\<open>nm_ip4_route_set_prefix\<close> was
  called on the new route with the \<^verbatim>\<open>guint32\<close> argument \<open>p\<close>. An argument in [0,32] is
  the prefix length of the route. The specification does not say what the setter does
  with an argument above 32; \<open>out_of_range\<close> stands for it: the prefix the route is
  left with in that case.
\<close>

definition nm_ip4_route_set_prefix :: "(32 word \<Rightarrow> 32 word) \<Rightarrow> 32 word \<Rightarrow> 32 word" where
  "nm_ip4_route_set_prefix out_of_range p = (if p \<le> 32 then p else out_of_range p)"

text \<open>What the function writes to the log with \<^verbatim>\<open>nm_info\<close> and \<^verbatim>\<open>nm_warning\<close>.\<close>

datatype log_msg =
    InfoProvidedButInvalid
  | WarnInvalidCidr string
  | WarnInvalidAddress string
  | WarnInvalidGateway string
  | InfoRoute string "32 word" string

text \<open>
  What the function can change: the routes of \<^verbatim>\<open>ip4_config\<close> (\<^verbatim>\<open>nm_ip4_config_take_route\<close>
  appends), the cell \<^verbatim>\<open>*gwaddr\<close>, the local \<^verbatim>\<open>have_routes\<close>, and the log.
\<close>

record routes_state =
  ip4_config :: "NMIP4Route list"
  gwaddr :: "32 word"
  have_routes :: bool
  log :: "log_msg list"

text \<open>
  One turn of the loop \<^verbatim>\<open>for (r = routes; *r; r += 2)\<close>, on the tokens \<^verbatim>\<open>*r\<close> and
  \<^verbatim>\<open>*(r + 1)\<close>, in three parts. First the text of \<^verbatim>\<open>*r\<close> once the zero byte is written
  over the slash: the part before the first slash, or all of it.
\<close>

definition dest_addr :: "string \<Rightarrow> string" where
  "dest_addr r = (case strchr r CHR ''/'' of None \<Rightarrow> r | Some k \<Rightarrow> take k r)"

text \<open>The text \<^verbatim>\<open>slash + 1\<close>, when there is a slash.\<close>

definition cidr_text :: "string \<Rightarrow> string option" where
  "cidr_text r = (case strchr r CHR ''/'' of None \<Rightarrow> None | Some k \<Rightarrow> Some (drop (Suc k) r))"

text \<open>
  Then \<^verbatim>\<open>rt_cidr\<close> and the value of \<^verbatim>\<open>errno\<close> the test reads: 32 without a slash, and
  otherwise what \<^verbatim>\<open>strtol\<close> makes of the text after it, called with \<^verbatim>\<open>errno\<close> set to 0.
  \<^verbatim>\<open>rt_cidr\<close> is an \<^verbatim>\<open>int\<close>: the \<^verbatim>\<open>long\<close> that \<^verbatim>\<open>strtol\<close> returns is truncated to 32 bits.
\<close>

definition dest_cidr :: "bool \<Rightarrow> string \<Rightarrow> 32 word \<times> int" where
  "dest_cidr einval r =
     (case cidr_text r of
        None \<Rightarrow> (32, 0)
      | Some t \<Rightarrow> (let (v, errno) = strtol einval t 0 in (word_of_int v, errno)))"

definition cidr_invalid :: "bool \<Rightarrow> string \<Rightarrow> bool" where
  "cidr_invalid einval r =
     (cidr_text r \<noteq> None \<and>
      (snd (dest_cidr einval r) = EINVAL \<or> snd (dest_cidr einval r) = ERANGE))"

text \<open>
  And the body of the loop with its three \<^verbatim>\<open>continue\<close> statements. The \<^verbatim>\<open>int\<close>
  \<^verbatim>\<open>rt_cidr\<close> is handed to \<^verbatim>\<open>nm_ip4_route_set_prefix\<close> as it is, and printed as it is in
  the message.
\<close>

definition route_pair ::
  "bool \<Rightarrow> (32 word \<Rightarrow> 32 word) \<Rightarrow> string \<Rightarrow> string \<Rightarrow> routes_state \<Rightarrow> routes_state" where
  "route_pair einval out_of_range r r1 st =
     (let rt_cidr = fst (dest_cidr einval r) in
      if cidr_invalid einval r then
        st\<lparr>log := log st @ [WarnInvalidCidr (the (cidr_text r))]\<rparr>
      else
        (case inet_pton (dest_addr r) of
           None \<Rightarrow> st\<lparr>log := log st @ [WarnInvalidAddress (dest_addr r)]\<rparr>
         | Some rt_addr \<Rightarrow>
             (case inet_pton r1 of
                None \<Rightarrow> st\<lparr>log := log st @ [WarnInvalidGateway r1]\<rparr>
              | Some rt_route \<Rightarrow>
                  (if rt_cidr = 0 \<and> rt_addr = 0 then
                     st\<lparr>have_routes := True, gwaddr := rt_addr\<rparr>
                   else
                     st\<lparr>have_routes := True,
                        ip4_config := ip4_config st @
                          [\<lparr>dest = rt_addr,
                            prefix = nm_ip4_route_set_prefix out_of_range rt_cidr,
                            next_hop = rt_route\<rparr>],
                        log := log st @ [InfoRoute (dest_addr r) rt_cidr r1]\<rparr>))))"

text \<open>
  The loop over the token vector, two tokens at a time. The vector has an even number
  of tokens when the loop is entered, so the case of a single token left is not reached.
\<close>

fun routes_loop ::
  "bool \<Rightarrow> (32 word \<Rightarrow> 32 word) \<Rightarrow> string list \<Rightarrow> routes_state \<Rightarrow> routes_state" where
  "routes_loop einval out_of_range (r # r1 # rest) st =
     routes_loop einval out_of_range rest (route_pair einval out_of_range r r1 st)"
| "routes_loop einval out_of_range [r] st = st"
| "routes_loop einval out_of_range [] st = st"

text \<open>
  The option the function reads: \<^verbatim>\<open>new_classless_static_routes\<close>, and when that is
  missing \<^verbatim>\<open>new_ms_classless_static_routes\<close>. \<open>options\<close> is the table of decoded
  options (strings).
\<close>

definition classless_option :: "(string \<rightharpoonup> string) \<Rightarrow> string option" where
  "classless_option options =
     (case options ''new_classless_static_routes'' of
        None \<Rightarrow> options ''new_ms_classless_static_routes''
      | Some str \<Rightarrow> Some str)"

text \<open>
  \<^verbatim>\<open>real_ip4_process_classless_routes\<close>. \<open>config\<close> holds the routes already in
  \<^verbatim>\<open>ip4_config\<close>, \<open>gw\<close> is the value of \<^verbatim>\<open>*gwaddr\<close> on entry. The field
  \<^term>\<open>have_routes\<close> of the result is the value the function returns.
\<close>

definition real_ip4_process_classless_routes ::
  "bool \<Rightarrow> (32 word \<Rightarrow> 32 word) \<Rightarrow> (string \<rightharpoonup> string) \<Rightarrow> NMIP4Route list \<Rightarrow> 32 word
   \<Rightarrow> routes_state" where
  "real_ip4_process_classless_routes einval out_of_range options config gw =
     (let st = \<lparr>ip4_config = config, gwaddr = gw, have_routes = False, log = []\<rparr> in
      case classless_option options of
        None \<Rightarrow> st
      | Some str \<Rightarrow>
          if length str = 0 then st
          else
            (let routes = g_strsplit str in
             if length routes = 0 then st
             else if length routes mod 2 \<noteq> 0 then
               st\<lparr>log := log st @ [InfoProvidedButInvalid]\<rparr>
             else routes_loop einval out_of_range routes st))"

section \<open>The manager of nm-dhcp-manager.c\<close>

text \<open>
  The two types a client object can have, and the two lease readers.
\<close>

datatype GType = NM_TYPE_DHCP_DHCLIENT | NM_TYPE_DHCP_DHCPCD

datatype GetLeaseConfigFunc =
  nm_dhcp_dhclient_get_lease_config | nm_dhcp_dhcpcd_get_lease_config

text \<open>
  Modelled from the spec: the declaration of \<^verbatim>\<open>NMDHCPState\<close> is not part of the files at
  hand. These are the states the specification lists for \<^verbatim>\<open>DhcpState\<close>.
\<close>

datatype NMDHCPState =
    DHC_PREINIT | DHC_BOUND | DHC_RENEW | DHC_REBIND | DHC_REBOOT | DHC_RELEASE
  | DHC_EXPIRE | DHC_FAIL | DHC_TIMEOUT | DHC_ABEND | DHC_END

text \<open>
  Modelled from the spec: the class \<^verbatim>\<open>NMDHCPClient\<close> is not part of the files at hand. A
  client object holds what the manager reads from it: the type it was constructed with,
  its interface name (\<^verbatim>\<open>nm_dhcp_client_get_iface\<close>) and the process identifier of its
  helper (\<^verbatim>\<open>nm_dhcp_client_get_pid\<close>, a \<^verbatim>\<open>GPid\<close>, that is an \<^verbatim>\<open>int\<close>).
\<close>

record NMDHCPClient =
  obj_type :: GType
  iface :: string
  pid :: "32 word"

text \<open>
  An object is known by its address. The table \<^verbatim>\<open>priv->clients\<close> has the address of a
  client as key and, as value, the same client, on which it holds a reference; an entry
  is the address with the object found there. The order of the entries is the order in
  which \<^verbatim>\<open>g_hash_table_iter_next\<close> visits them.
\<close>

type_synonym ptr = nat

type_synonym GHashTable = "(ptr \<times> NMDHCPClient) list"

definition g_hash_table_insert :: "GHashTable \<Rightarrow> ptr \<Rightarrow> NMDHCPClient \<Rightarrow> GHashTable" where
  "g_hash_table_insert t k v =
     (if k \<in> fst ` set t then map (\<lambda>(k', v'). if k' = k then (k', v) else (k', v')) t
      else t @ [(k, v)])"

definition g_hash_table_remove :: "GHashTable \<Rightarrow> ptr \<Rightarrow> GHashTable" where
  "g_hash_table_remove t k = filter (\<lambda>(k', v'). k' \<noteq> k) t"

text \<open>
  The fields of \<^verbatim>\<open>NMDHCPManagerPrivate\<close> that the functions below read or write. (The
  bus proxy and the hostname provider only shape the settings handed to
  \<^verbatim>\<open>nm_dhcp_client_start\<close>.)
\<close>

record NMDHCPManagerPrivate =
  client_type :: GType
  get_lease_config_func :: GetLeaseConfigFunc
  clients :: GHashTable

text \<open>
  The two searches return the first candidate the iteration meets, as an entry (the
  address with the object there), or \<^term>\<open>None\<close> for \<^verbatim>\<open>NULL\<close>.
\<close>

definition get_client_for_pid ::
  "NMDHCPManagerPrivate \<Rightarrow> 32 word \<Rightarrow> (ptr \<times> NMDHCPClient) option" where
  "get_client_for_pid priv p = find (\<lambda>(k, candidate). pid candidate = p) (clients priv)"

definition get_client_for_iface ::
  "NMDHCPManagerPrivate \<Rightarrow> string \<Rightarrow> (ptr \<times> NMDHCPClient) option" where
  "get_client_for_iface priv i = find (\<lambda>(k, candidate). i = iface candidate) (clients priv)"

text \<open>
  \<^verbatim>\<open>nm_dhcp_manager_handle_event\<close> ends either in one of its warnings or in the call of
  \<^verbatim>\<open>nm_dhcp_client_new_options\<close> on a client, with the reason.
\<close>

datatype event_outcome =
    WarnNoInterface
  | WarnNoPid
  | WarnCouldntConvertPid
  | WarnUnhandled string
  | WarnUnexpectedInterface string string
  | WarnNoReason
  | NewOptions ptr string

text \<open>
  \<open>errno\<close> is the value of \<^verbatim>\<open>errno\<close> when the function is entered: the code does not
  clear it before it calls \<^verbatim>\<open>strtoul\<close>. The cast \<^verbatim>\<open>(GPid) temp\<close> keeps the low 32 bits.
\<close>

definition nm_dhcp_manager_handle_event ::
  "bool \<Rightarrow> int \<Rightarrow> NMDHCPManagerPrivate \<Rightarrow> (string \<rightharpoonup> GValue) \<Rightarrow> event_outcome" where
  "nm_dhcp_manager_handle_event einval errno priv options =
     (case get_option options ''interface'' of
        None \<Rightarrow> WarnNoInterface
      | Some iface_buf \<Rightarrow>
     (case get_option options ''pid'' of
        None \<Rightarrow> WarnNoPid
      | Some pid_str \<Rightarrow>
     (let (temp, errno) = strtoul einval (c_str pid_str) errno in
      if temp = word_of_nat ULONG_MAX \<and> errno = ERANGE then WarnCouldntConvertPid
      else
     (case get_client_for_pid priv (ucast temp) of
        None \<Rightarrow> WarnUnhandled (c_str iface_buf)
      | Some (client, obj) \<Rightarrow>
     (if c_str iface_buf \<noteq> iface obj then WarnUnexpectedInterface (c_str iface_buf) (iface obj)
      else
     (case get_option options ''reason'' of
        None \<Rightarrow> WarnNoReason
      | Some reason \<Rightarrow> NewOptions client (c_str reason)))))))"

text \<open>
  \<^verbatim>\<open>nm_dhcp_manager_new\<close>. \<open>DHCLIENT_PATH\<close> and \<open>DHCPCD_PATH\<close> are the two paths fixed
  when the program is built; \<open>client\<close> is the selector, \<^term>\<open>None\<close> for \<^verbatim>\<open>NULL\<close>;
  \<open>table_ok\<close> and \<open>proxy_ok\<close> say whether the table and the bus proxy could be
  created.
\<close>

datatype new_error =
    ReturnIfFail
  | UnknownOrMissingClient string
  | NoMemoryForManager
  | NoMemoryForProxy

definition nm_dhcp_manager_new ::
  "string \<Rightarrow> string \<Rightarrow> string option \<Rightarrow> bool \<Rightarrow> bool \<Rightarrow> new_error + NMDHCPManagerPrivate" where
  "nm_dhcp_manager_new DHCLIENT_PATH DHCPCD_PATH client table_ok proxy_ok =
     (case client of
        None \<Rightarrow> Inl ReturnIfFail
      | Some client \<Rightarrow>
          (if client = ''dhclient'' \<and> length DHCLIENT_PATH \<noteq> 0 then
             (if \<not> table_ok then Inl NoMemoryForManager
              else if \<not> proxy_ok then Inl NoMemoryForProxy
              else Inr \<lparr>client_type = NM_TYPE_DHCP_DHCLIENT,
                        get_lease_config_func = nm_dhcp_dhclient_get_lease_config,
                        clients = []\<rparr>)
           else if client = ''dhcpcd'' \<and> length DHCPCD_PATH \<noteq> 0 then
             (if \<not> table_ok then Inl NoMemoryForManager
              else if \<not> proxy_ok then Inl NoMemoryForProxy
              else Inr \<lparr>client_type = NM_TYPE_DHCP_DHCPCD,
                        get_lease_config_func = nm_dhcp_dhcpcd_get_lease_config,
                        clients = []\<rparr>)
           else Inl (UnknownOrMissingClient client)))"

text \<open>
  \<^verbatim>\<open>remove_client\<close> disconnects the two signal handlers and takes the client out of the
  table; \<^verbatim>\<open>add_client\<close> connects them and puts it in.
\<close>

definition remove_client :: "NMDHCPManagerPrivate \<Rightarrow> ptr \<Rightarrow> NMDHCPManagerPrivate" where
  "remove_client priv client = priv\<lparr>clients := g_hash_table_remove (clients priv) client\<rparr>"

definition client_state_changed ::
  "ptr \<Rightarrow> NMDHCPState \<Rightarrow> NMDHCPManagerPrivate \<Rightarrow> NMDHCPManagerPrivate" where
  "client_state_changed client new_state priv =
     (if new_state = DHC_ABEND \<or> new_state = DHC_END then remove_client priv client
      else priv)"

definition client_timeout :: "ptr \<Rightarrow> NMDHCPManagerPrivate \<Rightarrow> NMDHCPManagerPrivate" where
  "client_timeout client priv = remove_client priv client"

definition add_client ::
  "NMDHCPManagerPrivate \<Rightarrow> ptr \<Rightarrow> NMDHCPClient \<Rightarrow> NMDHCPManagerPrivate" where
  "add_client priv client obj = priv\<lparr>clients := g_hash_table_insert (clients priv) client obj\<rparr>"

text \<open>
  Modelled from the spec: \<^verbatim>\<open>nm_dhcp_client_start\<close> is not part of the files at hand. It
  spawns the helper and registers its process identifier with the client, and returns
  success if and only if the spawn succeeded. \<open>started\<close> is the outcome of the spawn:
  the process identifier of the helper, or \<^term>\<open>None\<close> when it failed. The client is in
  the table when it is started, so the identifier shows in its entry.
\<close>

definition nm_dhcp_client_start :: "GHashTable \<Rightarrow> ptr \<Rightarrow> 32 word option \<Rightarrow> GHashTable \<times> bool" where
  "nm_dhcp_client_start t client started =
     (case started of
        None \<Rightarrow> (t, False)
      | Some helper \<Rightarrow>
          (map (\<lambda>(k, obj). if k = client then (k, obj\<lparr>pid := helper\<rparr>) else (k, obj)) t, True))"

text \<open>
  What \<^verbatim>\<open>nm_dhcp_manager_start_client\<close> leaves behind: the manager, the client on which
  it called \<^verbatim>\<open>nm_dhcp_client_stop\<close> if any, and the client it returns (\<^term>\<open>None\<close> for
  \<^verbatim>\<open>NULL\<close>).
\<close>

record start_result =
  manager :: NMDHCPManagerPrivate
  stopped :: "ptr option"
  returned :: "ptr option"

text \<open>
  \<^verbatim>\<open>nm_dhcp_manager_start_client\<close>. \<open>i\<close> is the interface name (\<^term>\<open>None\<close> for
  \<^verbatim>\<open>NULL\<close>) and \<open>new_obj\<close> the address \<^verbatim>\<open>g_object_new\<close> returns (\<^term>\<open>None\<close> for
  \<^verbatim>\<open>NULL\<close>). The new object has the process identifier 0 until it is started.
\<close>

definition nm_dhcp_manager_start_client ::
  "NMDHCPManagerPrivate \<Rightarrow> string option \<Rightarrow> ptr option \<Rightarrow> 32 word option \<Rightarrow> start_result" where
  "nm_dhcp_manager_start_client priv i new_obj started =
     (case i of
        None \<Rightarrow> \<lparr>manager = priv, stopped = None, returned = None\<rparr>
      | Some i \<Rightarrow>
          (let old = map_option fst (get_client_for_iface priv i);
               priv = (case old of None \<Rightarrow> priv | Some client \<Rightarrow> remove_client priv client)
           in case new_obj of
                None \<Rightarrow> \<lparr>manager = priv, stopped = old, returned = None\<rparr>
              | Some client \<Rightarrow>
                  (let obj = \<lparr>obj_type = NM_TYPE_DHCP_DHCLIENT, iface = i, pid = 0\<rparr>;
                       priv = add_client priv client obj;
                       (t, success) = nm_dhcp_client_start (clients priv) client started;
                       priv = priv\<lparr>clients := t\<rparr>
                   in if \<not> success then
                        \<lparr>manager = remove_client priv client, stopped = old, returned = None\<rparr>
                      else
                        \<lparr>manager = priv, stopped = old, returned = Some client\<rparr>)))"

text \<open>\<^verbatim>\<open>dispose\<close> removes every client of the table.\<close>

definition dispose :: "NMDHCPManagerPrivate \<Rightarrow> NMDHCPManagerPrivate" where
  "dispose priv = foldl remove_client priv (map fst (clients priv))"

text \<open>
  The states the manager can be in: the one \<^verbatim>\<open>nm_dhcp_manager_new\<close> returns, and from
  there any call of \<^verbatim>\<open>nm_dhcp_manager_start_client\<close>, any \<^verbatim>\<open>state-changed\<close> or \<^verbatim>\<open>timeout\<close>
  signal of a client, and \<^verbatim>\<open>dispose\<close>. (\<^verbatim>\<open>nm_dhcp_manager_handle_event\<close> changes the
  manager only through the \<^verbatim>\<open>state-changed\<close> signal the client may emit.)
\<close>

inductive reachable :: "NMDHCPManagerPrivate \<Rightarrow> bool" where
  new: "nm_dhcp_manager_new DHCLIENT_PATH DHCPCD_PATH client table_ok proxy_ok = Inr priv
        \<Longrightarrow> reachable priv"
| start: "reachable priv
        \<Longrightarrow> reachable (manager (nm_dhcp_manager_start_client priv i new_obj started))"
| state_changed: "reachable priv \<Longrightarrow> reachable (client_state_changed client new_state priv)"
| timeout: "reachable priv \<Longrightarrow> reachable (client_timeout client priv)"
| disposed: "reachable priv \<Longrightarrow> reachable (dispose priv)"

text \<open>
  No two entries of the table hold the same interface name (and no two the same key).
\<close>

definition one_client_per_iface :: "NMDHCPManagerPrivate \<Rightarrow> bool" where
  "one_client_per_iface priv \<longleftrightarrow>
     distinct (map fst (clients priv)) \<and> distinct (map (\<lambda>(k, c). iface c) (clients priv))"

section \<open>Notions used in the statements\<close>

text \<open>
  A manager with one client, at address 1, on \<^verbatim>\<open>eth0\<close>, whose helper has the process
  identifier 1234: the state after \<^verbatim>\<open>nm_dhcp_manager_new ("dhclient")\<close> and one
  successful \<^verbatim>\<open>nm_dhcp_manager_start_client\<close>.
\<close>

definition eth0_manager :: NMDHCPManagerPrivate where
  "eth0_manager =
     \<lparr>client_type = NM_TYPE_DHCP_DHCLIENT,
      get_lease_config_func = nm_dhcp_dhclient_get_lease_config,
      clients = [(1, \<lparr>obj_type = NM_TYPE_DHCP_DHCLIENT, iface = ''eth0'', pid = 1234\<rparr>)]\<rparr>"

text \<open>
  The destination tokens of a token vector stand at the even places. A route has the
  prefix of one of them when that token passed the test on \<^verbatim>\<open>errno\<close> and the route's
  prefix is what the setter made of the \<^verbatim>\<open>rt_cidr\<close> read from it.
\<close>

definition token_prefix ::
  "bool \<Rightarrow> (32 word \<Rightarrow> 32 word) \<Rightarrow> string list \<Rightarrow> NMIP4Route \<Rightarrow> bool" where
  "token_prefix einval out_of_range ts route =
     (\<exists>i. 2 * i + 1 < length ts \<and> \<not> cidr_invalid einval (ts ! (2 * i))
          \<and> prefix route =
              nm_ip4_route_set_prefix out_of_range (fst (dest_cidr einval (ts ! (2 * i)))))"

text \<open>
  Two ways a setter can treat an argument above 32: it stores it all the same
  (\<^term>\<open>id :: 32 word \<Rightarrow> 32 word\<close>), or it refuses it and the new route keeps a prefix of 0.
\<close>

definition refused :: "32 word \<Rightarrow> 32 word" where
  "refused p = 0"

text \<open>
  The translation of one byte in the words of the specification: \<^verbatim>\<open>0x00\<close> becomes
  \<^verbatim>\<open>0x20\<close>, a byte above 127 becomes \<^verbatim>\<open>0x3F\<close>, any other byte is preserved.
\<close>

definition spec_translate_byte :: "char \<Rightarrow> char" where
  "spec_translate_byte c =
     (if c = CHR 0x00 then CHR 0x20 else if (127::nat) < of_char c then CHR 0x3F else c)"

section \<open>Properties of the option decoder\<close>

lemma garray_loop_map:
  "i \<le> length data \<Longrightarrow>
   garray_loop data i str = str @ map spec_translate_byte (drop i data)"
proof (induction data i str rule: garray_loop.induct)
  case (1 data i str)
  show ?case
  proof (cases "i < length data")
    case True
    then have d: "drop i data = data ! i # drop (Suc i) data"
      by (simp add: Cons_nth_drop_Suc)
    from True have "Suc i \<le> length data" by simp
    with True "1.IH" [OF True refl refl] d show ?thesis
      by (subst garray_loop.simps) (simp add: spec_translate_byte_def Let_def)
  next
    case False
    with "1.prems" show ?thesis
      by (subst garray_loop.simps) simp
  qed
qed

lemma spec_translate_byte_nonzero: "CHR 0x00 \<noteq> spec_translate_byte c"
  by (simp add: spec_translate_byte_def)

lemma spec_translate_byte_ascii: "(of_char (spec_translate_byte c) :: nat) \<le> 127"
  by (simp add: spec_translate_byte_def)

text \<open>
  C3. For every byte array \<open>blob\<close> and key, \<^verbatim>\<open>garray_to_string\<close> returns the bytes of
  \<open>blob\<close> translated one by one and in order (zero to space, above 127 to a question
  mark, the others unchanged), followed by the terminating zero byte; before that zero
  byte the result has no zero byte and no byte above 127.
\<close>

theorem garray_to_string_bytewise:
  "\<exists>s. garray_to_string (Some blob) key = Some (s @ [CHR 0x00])
     \<and> s = map spec_translate_byte blob
     \<and> CHR 0x00 \<notin> set s
     \<and> (\<forall>c \<in> set s. (of_char c :: nat) \<le> 127)"
  by (auto simp: garray_to_string_def garray_loop_map
      spec_translate_byte_nonzero spec_translate_byte_ascii)

theorem garray_to_string_bytewise_witness:
  "garray_to_string (Some [CHR 0x00, CHR ''a'', CHR 0xC3, CHR 0x7F]) ''reason''
     = Some [CHR '' '', CHR ''a'', CHR ''?'', CHR 0x7F, CHR 0x00]"
  using garray_to_string_bytewise
    [of "[CHR 0x00, CHR ''a'', CHR 0xC3, CHR 0x7F]" "''reason''"]
  by (simp add: spec_translate_byte_def)

text \<open>
  C10. A key whose value is a byte array of length zero decodes to the empty string,
  that is the buffer holding only the terminating zero byte; and \<^verbatim>\<open>get_option\<close> returns
  \<^verbatim>\<open>NULL\<close> exactly when the key is missing or its value holds no byte array (it has
  another type, or the boxed array pointer is \<^verbatim>\<open>NULL\<close>).
\<close>

theorem get_option_empty_array:
  "(hash key = Some (UCharArray (Some [])) \<longrightarrow>
      get_option hash key = Some [CHR 0x00] \<and> c_str (the (get_option hash key)) = [])
   \<and> (get_option hash key = None \<longleftrightarrow>
        (hash key = None \<or> hash key = Some OtherType \<or> hash key = Some (UCharArray None)))"
  by (auto simp: get_option_def garray_to_string_def garray_loop_map c_str_def
      split: option.splits GValue.splits)

theorem get_option_empty_array_witness:
  "get_option [''pid'' \<mapsto> UCharArray (Some [])] ''pid'' = Some [CHR 0x00]
   \<and> get_option [''pid'' \<mapsto> UCharArray (Some [])] ''reason'' = None"
  using get_option_empty_array [of "[''pid'' \<mapsto> UCharArray (Some [])]" "''pid''"]
    get_option_empty_array [of "[''pid'' \<mapsto> UCharArray (Some [])]" "''reason''"]
  by simp

section \<open>Properties of the classless static routes\<close>

lemmas routes_eval =
  real_ip4_process_classless_routes_def classless_option_def g_strsplit_def route_pair_def
  dest_addr_def dest_cidr_def cidr_text_def cidr_invalid_def inet_pton_def
  nm_ip4_route_set_prefix_def isdigit_def strtol_def subject_sequence_def isspace_def
  LONG_MAX_def LONG_MIN_def EINVAL_def ERANGE_def

lemma real_loop:
  assumes "classless_option options = Some str" "g_strsplit str = ts" "ts \<noteq> []"
    "even (length ts)"
  shows "real_ip4_process_classless_routes einval out_of_range options config gw =
     routes_loop einval out_of_range ts
       \<lparr>ip4_config = config, gwaddr = gw, have_routes = False, log = []\<rparr>"
  using assms by (auto simp: real_ip4_process_classless_routes_def Let_def g_strsplit_def)

text \<open>
  C1. On the options of scenario S2, \<^verbatim>\<open>"10.0.0.0/8 192.0.2.1 0.0.0.0/0 192.0.2.254"\<close>, the
  function stores the one route 10.0.0.0/8 via 192.0.2.1 and keeps the pair
  \<^verbatim>\<open>0.0.0.0/0\<close> out of the route list, but what it writes to \<^verbatim>\<open>*gwaddr\<close> is the
  destination of that pair, 0.0.0.0, whatever \<^verbatim>\<open>*gwaddr\<close> held before, and not its next
  hop 192.0.2.254 (the address \<^verbatim>\<open>0xC00002FE\<close>).
\<close>

theorem classless_default_gateway_is_destination:
  "real_ip4_process_classless_routes einval out_of_range
     [''new_classless_static_routes'' \<mapsto> ''10.0.0.0/8 192.0.2.1 0.0.0.0/0 192.0.2.254'']
     [] gw
   = \<lparr>ip4_config = [\<lparr>dest = 0x0A000000, prefix = 8, next_hop = 0xC0000201\<rparr>],
      gwaddr = 0, have_routes = True,
      log = [InfoRoute ''10.0.0.0'' 8 ''192.0.2.1'']\<rparr>
   \<and> inet_pton ''192.0.2.254'' = Some 0xC00002FE"
  by (simp add: routes_eval)

text \<open>
  C7. When the classless-static-routes option splits into an odd number of tokens, the
  function accepts no pair: it returns \<^verbatim>\<open>FALSE\<close>, leaves the routes of the configuration
  and \<^verbatim>\<open>*gwaddr\<close> as they were, and writes the one message that the routes are invalid.
\<close>

theorem odd_tokens_rejected:
  assumes "classless_option options = Some str"
    and "odd (length (g_strsplit str))"
  shows "real_ip4_process_classless_routes einval out_of_range options config gw =
     \<lparr>ip4_config = config, gwaddr = gw, have_routes = False, log = [InfoProvidedButInvalid]\<rparr>"
  using assms
  by (auto simp: real_ip4_process_classless_routes_def g_strsplit_def Let_def
      odd_iff_mod_2_eq_one)

theorem odd_tokens_rejected_witness:
  "classless_option [''new_classless_static_routes'' \<mapsto> ''10.0.0.0/8 10.0.0.1 192.168.0.0/16'']
     = Some ''10.0.0.0/8 10.0.0.1 192.168.0.0/16''
   \<and> odd (length (g_strsplit ''10.0.0.0/8 10.0.0.1 192.168.0.0/16''))
   \<and> real_ip4_process_classless_routes False id
        [''new_classless_static_routes'' \<mapsto> ''10.0.0.0/8 10.0.0.1 192.168.0.0/16''] [] 7
      = \<lparr>ip4_config = [], gwaddr = 7, have_routes = False, log = [InfoProvidedButInvalid]\<rparr>"
proof -
  have opt: "classless_option
      [''new_classless_static_routes'' \<mapsto> ''10.0.0.0/8 10.0.0.1 192.168.0.0/16'']
     = Some ''10.0.0.0/8 10.0.0.1 192.168.0.0/16''"
    by (simp add: classless_option_def)
  have odd: "odd (length (g_strsplit ''10.0.0.0/8 10.0.0.1 192.168.0.0/16''))"
    by (simp add: g_strsplit_def)
  from opt odd odd_tokens_rejected [OF opt odd, of False id "[]" 7] show ?thesis
    by blast
qed


lemma routes_loop_append:
  "even (length pre) \<Longrightarrow>
   routes_loop einval out_of_range (pre @ post) st =
     routes_loop einval out_of_range post (routes_loop einval out_of_range pre st)"
  by (induction einval out_of_range pre st rule: routes_loop.induct) simp_all






lemma route_pair_routes:
  "ip4_config (route_pair einval out_of_range r r1 st) = ip4_config st
   \<or> (\<not> cidr_invalid einval r \<and>
       (\<exists>d n. ip4_config (route_pair einval out_of_range r r1 st) =
          ip4_config st @
            [\<lparr>dest = d,
              prefix = nm_ip4_route_set_prefix out_of_range (fst (dest_cidr einval r)),
              next_hop = n\<rparr>]))"
  by (simp add: route_pair_def Let_def split: option.splits)

lemma token_prefix_head:
  "\<not> cidr_invalid einval r \<Longrightarrow>
   prefix route = nm_ip4_route_set_prefix out_of_range (fst (dest_cidr einval r)) \<Longrightarrow>
   token_prefix einval out_of_range (r # r1 # rest) route"
  unfolding token_prefix_def by (rule exI [of _ 0]) simp

lemma token_prefix_rest:
  "token_prefix einval out_of_range rest route \<Longrightarrow>
   token_prefix einval out_of_range (r # r1 # rest) route"
  unfolding token_prefix_def
proof (elim exE conjE)
  fix i
  assume "2 * i + 1 < length rest" "\<not> cidr_invalid einval (rest ! (2 * i))"
    "prefix route = nm_ip4_route_set_prefix out_of_range (fst (dest_cidr einval (rest ! (2 * i))))"
  then show "\<exists>j. 2 * j + 1 < length (r # r1 # rest)
      \<and> \<not> cidr_invalid einval ((r # r1 # rest) ! (2 * j))
      \<and> prefix route =
          nm_ip4_route_set_prefix out_of_range
            (fst (dest_cidr einval ((r # r1 # rest) ! (2 * j))))"
    by (intro exI [of _ "Suc i"]) simp
qed

lemma routes_loop_prefix:
  "\<exists>news. ip4_config (routes_loop einval out_of_range ts st) = ip4_config st @ news
      \<and> (\<forall>route \<in> set news. token_prefix einval out_of_range ts route)"
proof (induction einval out_of_range ts st rule: routes_loop.induct)
  case (1 einval out_of_range r r1 rest st)
  then obtain news where
    n1: "ip4_config (routes_loop einval out_of_range rest (route_pair einval out_of_range r r1 st))
           = ip4_config (route_pair einval out_of_range r r1 st) @ news"
    and n2: "\<forall>route \<in> set news. token_prefix einval out_of_range rest route"
    by blast
  from route_pair_routes [of einval out_of_range r r1 st] show ?case
  proof (elim disjE conjE exE)
    assume "ip4_config (route_pair einval out_of_range r r1 st) = ip4_config st"
    with n1 n2 show ?thesis
      by (intro exI [of _ news]) (simp add: token_prefix_rest)
  next
    fix d n
    let ?route = "\<lparr>dest = d,
      prefix = nm_ip4_route_set_prefix out_of_range (fst (dest_cidr einval r)),
      next_hop = n\<rparr>"
    assume ok: "\<not> cidr_invalid einval r"
      and "ip4_config (route_pair einval out_of_range r r1 st) = ip4_config st @ [?route]"
    with n1 n2 show ?thesis
      by (intro exI [of _ "?route # news"]) (simp add: token_prefix_rest token_prefix_head)
  qed
qed simp_all

lemma real_routes_cases:
  "real_ip4_process_classless_routes einval out_of_range options config gw =
      \<lparr>ip4_config = config, gwaddr = gw, have_routes = False, log = []\<rparr>
   \<or> real_ip4_process_classless_routes einval out_of_range options config gw =
      \<lparr>ip4_config = config, gwaddr = gw, have_routes = False, log = [InfoProvidedButInvalid]\<rparr>
   \<or> (\<exists>str. classless_option options = Some str \<and>
        real_ip4_process_classless_routes einval out_of_range options config gw =
          routes_loop einval out_of_range (g_strsplit str)
            \<lparr>ip4_config = config, gwaddr = gw, have_routes = False, log = []\<rparr>)"
  by (simp add: real_ip4_process_classless_routes_def Let_def split: option.splits)

lemma real_routes_prefix:
  "\<exists>news. ip4_config (real_ip4_process_classless_routes einval out_of_range options config gw)
        = config @ news
     \<and> (\<forall>route \<in> set news. \<exists>str.
           classless_option options = Some str
         \<and> token_prefix einval out_of_range (g_strsplit str) route)"
proof -
  let ?st0 = "\<lparr>ip4_config = config, gwaddr = gw, have_routes = False, log = []\<rparr>"
  from real_routes_cases [of einval out_of_range options config gw] show ?thesis
  proof (elim disjE exE conjE)
    fix str
    assume opt: "classless_option options = Some str"
      and run: "real_ip4_process_classless_routes einval out_of_range options config gw =
                  routes_loop einval out_of_range (g_strsplit str) ?st0"
    from routes_loop_prefix [of einval out_of_range "g_strsplit str" ?st0] obtain news where
      "ip4_config (routes_loop einval out_of_range (g_strsplit str) ?st0) = config @ news"
      "\<forall>route \<in> set news. token_prefix einval out_of_range (g_strsplit str) route"
      by auto
    with opt run show ?thesis by auto
  qed simp_all
qed

lemma route_pair_accepted:
  assumes "\<not> cidr_invalid einval r" "inet_pton (dest_addr r) = Some a" "inet_pton r1 = Some g"
  shows "route_pair einval out_of_range r r1 st =
     (if fst (dest_cidr einval r) = 0 \<and> a = 0 then st\<lparr>have_routes := True, gwaddr := a\<rparr>
      else st\<lparr>have_routes := True,
              ip4_config := ip4_config st @
                [\<lparr>dest = a,
                  prefix = nm_ip4_route_set_prefix out_of_range (fst (dest_cidr einval r)),
                  next_hop = g\<rparr>],
              log := log st @ [InfoRoute (dest_addr r) (fst (dest_cidr einval r)) r1]\<rparr>)"
  using assms by (simp add: route_pair_def Let_def)

lemma route_pair_keeps_have_routes:
  "have_routes st \<Longrightarrow> have_routes (route_pair einval out_of_range r r1 st)"
  by (simp add: route_pair_def Let_def split: option.splits)

lemma routes_loop_keeps_have_routes:
  "have_routes st \<Longrightarrow> have_routes (routes_loop einval out_of_range ts st)"
  by (induction einval out_of_range ts st rule: routes_loop.induct)
    (simp_all add: route_pair_keeps_have_routes)

lemma accepted_in_run:
  assumes opt: "classless_option options = Some str"
    and toks: "g_strsplit str = pre @ r # r1 # post"
    and pre: "even (length pre)" and post: "even (length post)"
    and ok: "\<not> cidr_invalid einval r" "inet_pton (dest_addr r) = Some a"
      "inet_pton r1 = Some g"
  shows "have_routes (real_ip4_process_classless_routes einval out_of_range options config gw)
     \<and> ((fst (dest_cidr einval r) = 0 \<and> a = 0)
        \<or> (\<exists>n1 n3.
             ip4_config (real_ip4_process_classless_routes einval out_of_range options config gw)
               = config @ n1 @
                   [\<lparr>dest = a,
                     prefix = nm_ip4_route_set_prefix out_of_range (fst (dest_cidr einval r)),
                     next_hop = g\<rparr>] @ n3))"
proof -
  define st0 where "st0 = \<lparr>ip4_config = config, gwaddr = gw, have_routes = False, log = []\<rparr>"
  define before where "before = routes_loop einval out_of_range pre st0"
  define mid where "mid = route_pair einval out_of_range r r1 before"
  let ?route = "\<lparr>dest = a,
      prefix = nm_ip4_route_set_prefix out_of_range (fst (dest_cidr einval r)), next_hop = g\<rparr>"
  from pre post have "even (length (pre @ r # r1 # post))" by simp
  with real_loop [OF opt toks]
  have "real_ip4_process_classless_routes einval out_of_range options config gw =
          routes_loop einval out_of_range (pre @ r # r1 # post) st0"
    by (simp add: st0_def)
  with pre have res: "real_ip4_process_classless_routes einval out_of_range options config gw =
      routes_loop einval out_of_range post mid"
    by (simp add: routes_loop_append before_def mid_def)
  have m: "mid = (if fst (dest_cidr einval r) = 0 \<and> a = 0
                   then before\<lparr>have_routes := True, gwaddr := a\<rparr>
                   else before\<lparr>have_routes := True,
                          ip4_config := ip4_config before @ [?route],
                          log := log before @
                            [InfoRoute (dest_addr r) (fst (dest_cidr einval r)) r1]\<rparr>)"
    unfolding mid_def by (rule route_pair_accepted [OF ok])
  then have "have_routes mid" by simp
  then have h: "have_routes (routes_loop einval out_of_range post mid)"
    by (rule routes_loop_keeps_have_routes)
  from routes_loop_prefix [of einval out_of_range pre st0] obtain n1 where
    n1: "ip4_config before = config @ n1"
    by (auto simp: before_def st0_def)
  from routes_loop_prefix [of einval out_of_range post mid] obtain n3 where
    n3: "ip4_config (routes_loop einval out_of_range post mid) = ip4_config mid @ n3"
    by auto
  show ?thesis
  proof (cases "fst (dest_cidr einval r) = 0 \<and> a = 0")
    case True
    with h res show ?thesis by simp
  next
    case False
    with m have "ip4_config mid = ip4_config before @ [?route]" by simp
    with n1 n3 have "ip4_config (routes_loop einval out_of_range post mid)
        = config @ n1 @ [?route] @ n3"
      by simp
    with h res show ?thesis by auto
  qed
qed

text \<open>
  C9, as the code has it. Every route the function adds to the configuration comes
  from a destination token whose \<^verbatim>\<open>/cidr\<close> part passed the test on \<^verbatim>\<open>errno\<close>, and its
  prefix is what \<^verbatim>\<open>nm_ip4_route_set_prefix\<close> makes of the number handed to it: 32 when
  the token has no \<^verbatim>\<open>/cidr\<close> part, and otherwise the number \<^verbatim>\<open>strtol\<close> reads there, cut
  to the 32 bits of an \<^verbatim>\<open>int\<close>. So every added route has a prefix in [0,32] if the
  setter never leaves a prefix above 32. The function itself does not compare the
  number with 0 or 32: a pair that passes the test on \<^verbatim>\<open>errno\<close> and whose two addresses
  \<^verbatim>\<open>inet_pton\<close> accepts is accepted whatever the number is. The function then returns
  \<^verbatim>\<open>TRUE\<close> and, unless the pair is the default gateway (number 0, destination
  0.0.0.0), the configuration has a route with the destination and the next hop of the
  pair.
\<close>

theorem stored_prefix_from_token:
  "\<exists>news.
     ip4_config (real_ip4_process_classless_routes einval out_of_range options config gw)
       = config @ news
   \<and> (\<forall>route \<in> set news. \<exists>str i.
         classless_option options = Some str
       \<and> 2 * i + 1 < length (g_strsplit str)
       \<and> \<not> cidr_invalid einval (g_strsplit str ! (2 * i))
       \<and> prefix route =
           nm_ip4_route_set_prefix out_of_range
             (case cidr_text (g_strsplit str ! (2 * i)) of
                None \<Rightarrow> 32
              | Some t \<Rightarrow> word_of_int (fst (strtol einval t 0))))
   \<and> ((\<forall>p. out_of_range p \<le> 32) \<longrightarrow> (\<forall>route \<in> set news. prefix route \<le> 32))
   \<and> (\<forall>str pre r r1 post a g.
         classless_option options = Some str
       \<and> g_strsplit str = pre @ r # r1 # post
       \<and> even (length pre) \<and> even (length post)
       \<and> \<not> cidr_invalid einval r
       \<and> inet_pton (dest_addr r) = Some a \<and> inet_pton r1 = Some g
       \<longrightarrow> have_routes
             (real_ip4_process_classless_routes einval out_of_range options config gw)
         \<and> ((fst (dest_cidr einval r) = 0 \<and> a = 0)
            \<or> \<lparr>dest = a,
                prefix = nm_ip4_route_set_prefix out_of_range (fst (dest_cidr einval r)),
                next_hop = g\<rparr> \<in> set news))"
proof -
  let ?result = "real_ip4_process_classless_routes einval out_of_range options config gw"
  from real_routes_prefix [of einval out_of_range options config gw] obtain news where
    n1: "ip4_config ?result = config @ news"
    and n2: "\<forall>route \<in> set news. \<exists>str.
           classless_option options = Some str
         \<and> token_prefix einval out_of_range (g_strsplit str) route"
    by blast
  have cidr: "\<And>tok. fst (dest_cidr einval tok) =
      (case cidr_text tok of None \<Rightarrow> 32 | Some t \<Rightarrow> word_of_int (fst (strtol einval t 0)))"
    by (simp add: dest_cidr_def split: option.splits prod.splits)
  have a: "\<forall>route \<in> set news. \<exists>str i.
         classless_option options = Some str
       \<and> 2 * i + 1 < length (g_strsplit str)
       \<and> \<not> cidr_invalid einval (g_strsplit str ! (2 * i))
       \<and> prefix route =
           nm_ip4_route_set_prefix out_of_range
             (case cidr_text (g_strsplit str ! (2 * i)) of
                None \<Rightarrow> 32
              | Some t \<Rightarrow> word_of_int (fst (strtol einval t 0)))"
  proof
    fix route assume "route \<in> set news"
    with n2 obtain str i where "classless_option options = Some str"
      "2 * i + 1 < length (g_strsplit str)"
      "\<not> cidr_invalid einval (g_strsplit str ! (2 * i))"
      "prefix route =
         nm_ip4_route_set_prefix out_of_range (fst (dest_cidr einval (g_strsplit str ! (2 * i))))"
      unfolding token_prefix_def by blast
    then show "\<exists>str i.
         classless_option options = Some str
       \<and> 2 * i + 1 < length (g_strsplit str)
       \<and> \<not> cidr_invalid einval (g_strsplit str ! (2 * i))
       \<and> prefix route =
           nm_ip4_route_set_prefix out_of_range
             (case cidr_text (g_strsplit str ! (2 * i)) of
                None \<Rightarrow> 32
              | Some t \<Rightarrow> word_of_int (fst (strtol einval t 0)))"
      unfolding cidr by blast
  qed
  have b: "(\<forall>p. out_of_range p \<le> 32) \<longrightarrow> (\<forall>route \<in> set news. prefix route \<le> 32)"
  proof (intro impI ballI)
    fix route assume range: "\<forall>p. out_of_range p \<le> 32" and "route \<in> set news"
    with a obtain v where "prefix route = nm_ip4_route_set_prefix out_of_range v"
      by blast
    with range show "prefix route \<le> 32"
      by (simp add: nm_ip4_route_set_prefix_def)
  qed
  have c: "\<forall>str pre r r1 post a g.
         classless_option options = Some str
       \<and> g_strsplit str = pre @ r # r1 # post
       \<and> even (length pre) \<and> even (length post)
       \<and> \<not> cidr_invalid einval r
       \<and> inet_pton (dest_addr r) = Some a \<and> inet_pton r1 = Some g
       \<longrightarrow> have_routes ?result
         \<and> ((fst (dest_cidr einval r) = 0 \<and> a = 0)
            \<or> \<lparr>dest = a,
                prefix = nm_ip4_route_set_prefix out_of_range (fst (dest_cidr einval r)),
                next_hop = g\<rparr> \<in> set news)"
  proof (intro allI impI, elim conjE)
    fix str pre r r1 post a g
    assume h: "classless_option options = Some str" "g_strsplit str = pre @ r # r1 # post"
      "even (length pre)" "even (length post)" "\<not> cidr_invalid einval r"
      "inet_pton (dest_addr r) = Some a" "inet_pton r1 = Some g"
    from accepted_in_run [OF h, of out_of_range config gw] n1
    show "have_routes ?result
         \<and> ((fst (dest_cidr einval r) = 0 \<and> a = 0)
            \<or> \<lparr>dest = a,
                prefix = nm_ip4_route_set_prefix out_of_range (fst (dest_cidr einval r)),
                next_hop = g\<rparr> \<in> set news)"
      by auto
  qed
  from n1 a b c show ?thesis by blast
qed

text \<open>
  On \<^verbatim>\<open>10.0.0.0/99 192.0.2.1 172.16.1.1 10.0.0.1\<close>, with a setter that refuses 99: both
  pairs are accepted, the first with the prefix the setter leaves and the second with
  the prefix 32.
\<close>

theorem stored_prefix_from_token_witness:
  "(\<forall>p. refused p \<le> 32)
   \<and> \<not> cidr_invalid False ''10.0.0.0/99''
   \<and> fst (dest_cidr False ''10.0.0.0/99'') = 99
   \<and> real_ip4_process_classless_routes False refused
       [''new_classless_static_routes'' \<mapsto> ''10.0.0.0/99 192.0.2.1 172.16.1.1 10.0.0.1''] [] 0
     = \<lparr>ip4_config = [\<lparr>dest = 0x0A000000, prefix = 0, next_hop = 0xC0000201\<rparr>,
                      \<lparr>dest = 0xAC100101, prefix = 32, next_hop = 0x0A000001\<rparr>],
        gwaddr = 0, have_routes = True,
        log = [InfoRoute ''10.0.0.0'' 99 ''192.0.2.1'',
               InfoRoute ''172.16.1.1'' 32 ''10.0.0.1'']\<rparr>"
  using stored_prefix_from_token [of False refused
      "[''new_classless_static_routes'' \<mapsto> ''10.0.0.0/99 192.0.2.1 172.16.1.1 10.0.0.1'']" "[]" 0]
  by (simp add: routes_eval refused_def)

text \<open>
  The claim C9 as it is written fails: the pair \<^verbatim>\<open>10.0.0.0/99 192.0.2.1\<close> is not
  rejected. The function returns \<^verbatim>\<open>TRUE\<close>, writes the message of a route
  \<^verbatim>\<open>10.0.0.0/99\<close>, and adds a route to 10.0.0.0 via 192.0.2.1 to the configuration: with
  the prefix 99 if the setter stores what it is given, with the prefix 0 if it refuses
  it.
\<close>

theorem prefix_out_of_range_counterexample:
  "real_ip4_process_classless_routes False id
     [''new_classless_static_routes'' \<mapsto> ''10.0.0.0/99 192.0.2.1''] [] 0
   = \<lparr>ip4_config = [\<lparr>dest = 0x0A000000, prefix = 99, next_hop = 0xC0000201\<rparr>],
      gwaddr = 0, have_routes = True,
      log = [InfoRoute ''10.0.0.0'' 99 ''192.0.2.1'']\<rparr>
   \<and> real_ip4_process_classless_routes False refused
     [''new_classless_static_routes'' \<mapsto> ''10.0.0.0/99 192.0.2.1''] [] 0
   = \<lparr>ip4_config = [\<lparr>dest = 0x0A000000, prefix = 0, next_hop = 0xC0000201\<rparr>],
      gwaddr = 0, have_routes = True,
      log = [InfoRoute ''10.0.0.0'' 99 ''192.0.2.1'']\<rparr>"
  by (simp add: routes_eval refused_def)

section \<open>Properties of the manager\<close>

lemmas manager_eval =
  nm_dhcp_manager_new_def nm_dhcp_manager_start_client_def get_client_for_iface_def
  get_client_for_pid_def remove_client_def add_client_def g_hash_table_insert_def
  g_hash_table_remove_def nm_dhcp_client_start_def client_state_changed_def
  client_timeout_def dispose_def eth0_manager_def

lemma garray_to_string_eval:
  "garray_to_string (Some data) key = Some (map spec_translate_byte data @ [CHR 0x00])"
  by (simp add: garray_to_string_def garray_loop_map)

lemmas event_eval =
  nm_dhcp_manager_handle_event_def get_option_def garray_to_string_eval
  spec_translate_byte_def c_str_def strtoul_def subject_sequence_def isspace_def isdigit_def
  ULONG_MAX_def ERANGE_def EINVAL_def get_client_for_pid_def eth0_manager_def

text \<open>The example manager is a state the code reaches.\<close>

lemma eth0_manager_reachable: "reachable eth0_manager"
proof -
  let ?priv0 = "\<lparr>client_type = NM_TYPE_DHCP_DHCLIENT,
      get_lease_config_func = nm_dhcp_dhclient_get_lease_config, clients = []\<rparr>"
  have "nm_dhcp_manager_new ''/sbin/dhclient'' ''/sbin/dhcpcd'' (Some ''dhclient'') True True
      = Inr ?priv0"
    by (simp add: nm_dhcp_manager_new_def)
  then have "reachable ?priv0" by (rule reachable.new)
  then have "reachable
      (manager (nm_dhcp_manager_start_client ?priv0 (Some ''eth0'') (Some 1) (Some 1234)))"
    by (rule reachable.start)
  moreover have "manager (nm_dhcp_manager_start_client ?priv0 (Some ''eth0'') (Some 1) (Some 1234))
      = eth0_manager"
    by (simp add: manager_eval)
  ultimately show ?thesis by simp
qed

text \<open>
  C2. With the selector \<^verbatim>\<open>"dhcpcd"\<close> the manager records the type
  \<^verbatim>\<open>NM_TYPE_DHCP_DHCPCD\<close> in \<^verbatim>\<open>priv->client_type\<close>, and yet the client that
  \<^verbatim>\<open>nm_dhcp_manager_start_client\<close> constructs and puts into the table has the type
  \<^verbatim>\<open>NM_TYPE_DHCP_DHCLIENT\<close>.
\<close>

theorem start_client_ignores_client_type:
  "\<exists>priv. nm_dhcp_manager_new ''/sbin/dhclient'' ''/sbin/dhcpcd'' (Some ''dhcpcd'') True True
             = Inr priv
     \<and> client_type priv = NM_TYPE_DHCP_DHCPCD
     \<and> returned (nm_dhcp_manager_start_client priv (Some ''eth0'') (Some 1) (Some 1234)) = Some 1
     \<and> clients (manager (nm_dhcp_manager_start_client priv (Some ''eth0'') (Some 1) (Some 1234)))
         = [(1, \<lparr>obj_type = NM_TYPE_DHCP_DHCLIENT, iface = ''eth0'', pid = 1234\<rparr>)]"
  by (simp add: manager_eval)

lemma find_in_set: "find P xs = Some x \<Longrightarrow> x \<in> set xs"
  by (induction xs) (auto split: if_splits)

lemma find_holds: "find P xs = Some x \<Longrightarrow> P x"
  by (induction xs) (auto split: if_splits)

lemma remove_client_gone: "client \<notin> fst ` set (clients (remove_client priv client))"
  by (auto simp: remove_client_def g_hash_table_remove_def)

lemma get_client_for_pid_in_table:
  "get_client_for_pid priv p = Some (k, c) \<Longrightarrow> k \<in> fst ` set (clients priv)"
  unfolding get_client_for_pid_def by (drule find_in_set) force

lemma handle_event_in_table:
  "nm_dhcp_manager_handle_event einval errno priv options = NewOptions client reason
   \<Longrightarrow> client \<in> fst ` set (clients priv)"
  by (auto simp: nm_dhcp_manager_handle_event_def Let_def
      split: option.splits prod.splits if_splits dest: get_client_for_pid_in_table)

text \<open>
  C4, as the code has it. When a client signals \<^verbatim>\<open>state-changed\<close> with \<^verbatim>\<open>ABEND\<close> or
  \<^verbatim>\<open>END\<close>, or when it signals \<^verbatim>\<open>timeout\<close>, the manager takes it out of the table, and
  no later event is passed to it. A \<^verbatim>\<open>state-changed\<close> signal with any other state,
  \<^verbatim>\<open>FAIL\<close> and \<^verbatim>\<open>TIMEOUT\<close> among them, leaves the manager as it is.
\<close>

theorem removed_on_abend_end_timeout:
  "(new_state = DHC_ABEND \<or> new_state = DHC_END \<longrightarrow>
      client \<notin> fst ` set (clients (client_state_changed client new_state priv))
      \<and> nm_dhcp_manager_handle_event einval errno
           (client_state_changed client new_state priv) options \<noteq> NewOptions client reason)
   \<and> (new_state \<noteq> DHC_ABEND \<and> new_state \<noteq> DHC_END \<longrightarrow>
        client_state_changed client new_state priv = priv)
   \<and> client \<notin> fst ` set (clients (client_timeout client priv))
   \<and> nm_dhcp_manager_handle_event einval errno (client_timeout client priv) options
        \<noteq> NewOptions client reason"
proof -
  have a: "nm_dhcp_manager_handle_event einval errno (remove_client priv client) options
        \<noteq> NewOptions client reason"
    using handle_event_in_table [of einval errno "remove_client priv client" options client reason]
      remove_client_gone [of client priv] by blast
  show ?thesis
    using a remove_client_gone [of client priv]
    by (simp add: client_state_changed_def client_timeout_def)
qed

theorem removed_on_abend_end_timeout_witness:
  "clients (client_state_changed 1 DHC_END eth0_manager) = []
   \<and> clients (client_state_changed 1 DHC_ABEND eth0_manager) = []
   \<and> clients (client_timeout 1 eth0_manager) = []
   \<and> client_state_changed 1 DHC_BOUND eth0_manager = eth0_manager"
  using removed_on_abend_end_timeout [of DHC_END 1 eth0_manager False 0 Map.empty "''BOUND''"]
    removed_on_abend_end_timeout [of DHC_ABEND 1 eth0_manager False 0 Map.empty "''BOUND''"]
    removed_on_abend_end_timeout [of DHC_BOUND 1 eth0_manager False 0 Map.empty "''BOUND''"]
  by (simp add: manager_eval)

text \<open>
  The claim C4 as it is written fails for \<^verbatim>\<open>FAIL\<close>: after the client at address 1
  has signalled \<^verbatim>\<open>state-changed\<close> with \<^verbatim>\<open>FAIL\<close> it is still in the table, and the next
  event for its process identifier is passed to it.
\<close>

theorem fail_state_counterexample:
  "clients (client_state_changed 1 DHC_FAIL eth0_manager)
     = [(1, \<lparr>obj_type = NM_TYPE_DHCP_DHCLIENT, iface = ''eth0'', pid = 1234\<rparr>)]
   \<and> nm_dhcp_manager_handle_event False 0 (client_state_changed 1 DHC_FAIL eth0_manager)
        [''interface'' \<mapsto> UCharArray (Some ''eth0''), ''pid'' \<mapsto> UCharArray (Some ''1234''),
         ''reason'' \<mapsto> UCharArray (Some ''BOUND'')]
      = NewOptions 1 ''BOUND''"
  by (simp add: client_state_changed_def event_eval)




lemma remove_keeps_inv:
  "one_client_per_iface priv \<Longrightarrow> one_client_per_iface (remove_client priv client)"
  by (simp add: one_client_per_iface_def remove_client_def g_hash_table_remove_def
      distinct_map_filter)

lemma no_client_for_iface:
  "get_client_for_iface priv i = None \<Longrightarrow> \<forall>(k, c) \<in> set (clients priv). iface c \<noteq> i"
  by (auto simp: get_client_for_iface_def find_None_iff)

lemma old_client_removed:
  assumes inv: "one_client_per_iface priv"
    and old: "get_client_for_iface priv i = Some (k0, c0)"
  shows "\<forall>(k, c) \<in> set (clients (remove_client priv k0)). iface c \<noteq> i"
proof -
  from old have mem: "(k0, c0) \<in> set (clients priv)" and i: "iface c0 = i"
    unfolding get_client_for_iface_def by (auto dest: find_in_set find_holds)
  from inv have inj: "inj_on (\<lambda>(k, c). iface c) (set (clients priv))"
    by (simp add: one_client_per_iface_def distinct_map)
  show ?thesis
  proof (clarsimp simp: remove_client_def g_hash_table_remove_def)
    fix k c assume "(k, c) \<in> set (clients priv)" "k \<noteq> k0" "i = iface c"
    with inj mem i have "(k, c) = (k0, c0)"
      by (auto dest!: inj_onD [where x = "(k, c)" and y = "(k0, c0)"])
    with \<open>k \<noteq> k0\<close> show False by simp
  qed
qed

lemma replace_absent:
  "k \<notin> fst ` set t \<Longrightarrow> map (\<lambda>(k', v'). if k' = k then (k', v) else (k', v')) t = t"
  by (induction t) auto

lemma replace_present:
  assumes "k \<in> fst ` set t" "distinct (map fst t)"
  shows "\<exists>xs c0 ys. t = xs @ (k, c0) # ys
           \<and> map (\<lambda>(k', v'). if k' = k then (k', v) else (k', v')) t = xs @ (k, v) # ys"
proof -
  from assms(1) obtain c0 where "(k, c0) \<in> set t" by auto
  then obtain xs ys where t: "t = xs @ (k, c0) # ys"
    by (auto dest: split_list)
  with assms(2) have "k \<notin> fst ` set xs" "k \<notin> fst ` set ys" by auto
  then have "map (\<lambda>(k', v'). if k' = k then (k', v) else (k', v')) t = xs @ (k, v) # ys"
    unfolding t by (simp add: replace_absent)
  with t show ?thesis by blast
qed

lemma insert_table:
  assumes keys: "distinct (map fst t)"
    and names: "distinct (map (\<lambda>(k, c). iface c) t)"
    and others: "\<forall>(k', c) \<in> set t. iface c \<noteq> iface v"
  shows "distinct (map fst (g_hash_table_insert t k v))
       \<and> distinct (map (\<lambda>(k, c). iface c) (g_hash_table_insert t k v))
       \<and> filter (\<lambda>(k', c). iface c = iface v) (g_hash_table_insert t k v) = [(k, v)]"
proof (cases "k \<in> fst ` set t")
  case False
  with assms show ?thesis
    by (auto simp: g_hash_table_insert_def filter_empty_conv)
next
  case True
  from replace_present [OF True keys, of v] obtain xs c0 ys where
    t: "t = xs @ (k, c0) # ys"
    and r: "g_hash_table_insert t k v = xs @ (k, v) # ys"
    using True by (auto simp: g_hash_table_insert_def)
  from keys have 1: "distinct (map fst (xs @ (k, v) # ys))"
    unfolding t by simp
  from others have "iface v \<notin> (\<lambda>(k, c). iface c) ` set xs"
    "iface v \<notin> (\<lambda>(k, c). iface c) ` set ys"
    unfolding t by force+
  with names have 2: "distinct (map (\<lambda>(k, c). iface c) (xs @ (k, v) # ys))"
    unfolding t by simp
  from others have "filter (\<lambda>(k', c). iface c = iface v) xs = []"
    "filter (\<lambda>(k', c). iface c = iface v) ys = []"
    unfolding t by (auto simp: filter_empty_conv)
  then have 3: "filter (\<lambda>(k', c). iface c = iface v) (xs @ (k, v) # ys) = [(k, v)]"
    by simp
  from 1 2 3 show ?thesis unfolding r by blast
qed

lemma start_table:
  "map fst (fst (nm_dhcp_client_start t client started)) = map fst t
   \<and> map (\<lambda>(k, c). iface c) (fst (nm_dhcp_client_start t client started))
       = map (\<lambda>(k, c). iface c) t"
  by (induction t) (auto simp: nm_dhcp_client_start_def split: option.splits)

lemma start_filter:
  "filter (\<lambda>(k', c). iface c = i) t = [(client, obj)] \<Longrightarrow>
   filter (\<lambda>(k', c). iface c = i) (fst (nm_dhcp_client_start t client (Some helper)))
     = [(client, obj\<lparr>pid := helper\<rparr>)]"
proof (induction t)
  case Nil
  then show ?case by simp
next
  case (Cons e t)
  obtain k c where e: "e = (k, c)" by (cases e)
  show ?case
  proof (cases "iface c = i")
    case True
    with Cons.prems e have "k = client" "c = obj" "filter (\<lambda>(k', c). iface c = i) t = []"
      by auto
    moreover from this(3) have
      "filter (\<lambda>(k', c). iface c = i)
         (map (\<lambda>(k, obj). if k = client then (k, obj\<lparr>pid := helper\<rparr>) else (k, obj)) t) = []"
      by (auto simp: filter_empty_conv split: if_splits)
    ultimately show ?thesis using e True
      by (simp add: nm_dhcp_client_start_def)
  next
    case False
    with Cons.prems e have "filter (\<lambda>(k', c). iface c = i) t = [(client, obj)]" by simp
    from Cons.IH [OF this] False e show ?thesis
      by (simp add: nm_dhcp_client_start_def)
  qed
qed

lemma remove_new_client:
  assumes "filter (\<lambda>(k', c). iface c = i) t = [(client, obj)]"
  shows "filter (\<lambda>(k', c). iface c = i) (g_hash_table_remove t client) = []"
proof -
  have "\<And>k c. (k, c) \<in> set t \<Longrightarrow> iface c = i \<Longrightarrow> k = client"
  proof -
    fix k c assume "(k, c) \<in> set t" "iface c = i"
    then have "(k, c) \<in> set (filter (\<lambda>(k', c). iface c = i) t)" by simp
    with assms show "k = client" by simp
  qed
  then show ?thesis
    by (auto simp: g_hash_table_remove_def filter_empty_conv)
qed

lemma start_client_post:
  assumes inv: "one_client_per_iface priv"
  shows "one_client_per_iface (manager (nm_dhcp_manager_start_client priv i new_obj started))
     \<and> (\<forall>name. i = Some name \<longrightarrow>
          stopped (nm_dhcp_manager_start_client priv i new_obj started)
            = map_option fst (get_client_for_iface priv name)
        \<and> filter (\<lambda>(k, c). iface c = name)
            (clients (manager (nm_dhcp_manager_start_client priv i new_obj started)))
          = (case (new_obj, started) of
               (Some client, Some helper) \<Rightarrow>
                 [(client, \<lparr>obj_type = NM_TYPE_DHCP_DHCLIENT, iface = name, pid = helper\<rparr>)]
             | _ \<Rightarrow> []))"
proof (cases i)
  case None
  with inv show ?thesis by (simp add: nm_dhcp_manager_start_client_def)
next
  case (Some name)
  define priv1 where "priv1 =
    (case map_option fst (get_client_for_iface priv name) of
       None \<Rightarrow> priv | Some client \<Rightarrow> remove_client priv client)"
  have inv1: "one_client_per_iface priv1"
    using inv by (simp add: priv1_def remove_keeps_inv split: option.splits)
  have none1: "\<forall>(k, c) \<in> set (clients priv1). iface c \<noteq> name"
  proof (cases "get_client_for_iface priv name")
    case None
    with no_client_for_iface [OF None] show ?thesis by (simp add: priv1_def)
  next
    case (Some e)
    then obtain k0 c0 where "get_client_for_iface priv name = Some (k0, c0)" by (cases e) simp
    with old_client_removed [OF inv this] show ?thesis by (simp add: priv1_def)
  qed
  then have empty1: "filter (\<lambda>(k, c). iface c = name) (clients priv1) = []"
    by (auto simp: filter_empty_conv)
  show ?thesis
  proof (cases new_obj)
    case None
    have "manager (nm_dhcp_manager_start_client priv i new_obj started) = priv1"
      "stopped (nm_dhcp_manager_start_client priv i new_obj started)
          = map_option fst (get_client_for_iface priv name)"
      using Some None by (simp_all add: nm_dhcp_manager_start_client_def priv1_def Let_def)
    with Some None inv1 empty1 show ?thesis by simp
  next
    case new: (Some client)
    define obj where "obj = \<lparr>obj_type = NM_TYPE_DHCP_DHCLIENT, iface = name, pid = 0\<rparr>"
    define t2 where "t2 = g_hash_table_insert (clients priv1) client obj"
    from inv1 none1 insert_table [of "clients priv1" obj client]
    have t2: "distinct (map fst t2)" "distinct (map (\<lambda>(k, c). iface c) t2)"
      "filter (\<lambda>(k, c). iface c = name) t2 = [(client, obj)]"
      by (auto simp: one_client_per_iface_def t2_def obj_def)
    show ?thesis
    proof (cases started)
      case None
      have "manager (nm_dhcp_manager_start_client priv i new_obj started)
          = remove_client (priv1\<lparr>clients := t2\<rparr>) client"
        "stopped (nm_dhcp_manager_start_client priv i new_obj started)
          = map_option fst (get_client_for_iface priv name)"
        using Some new None
        by (simp_all add: nm_dhcp_manager_start_client_def priv1_def Let_def
            add_client_def obj_def t2_def nm_dhcp_client_start_def)
      moreover have "one_client_per_iface (remove_client (priv1\<lparr>clients := t2\<rparr>) client)"
        using t2 by (intro remove_keeps_inv) (simp add: one_client_per_iface_def)
      moreover have "filter (\<lambda>(k, c). iface c = name)
          (clients (remove_client (priv1\<lparr>clients := t2\<rparr>) client)) = []"
        using remove_new_client [OF t2(3)] by (simp add: remove_client_def)
      ultimately show ?thesis using Some new None by simp
    next
      case started: (Some helper)
      define t3 where "t3 = fst (nm_dhcp_client_start t2 client (Some helper))"
      have "manager (nm_dhcp_manager_start_client priv i new_obj started)
          = priv1\<lparr>clients := t3\<rparr>"
        "stopped (nm_dhcp_manager_start_client priv i new_obj started)
          = map_option fst (get_client_for_iface priv name)"
        using Some new started
        by (simp_all add: nm_dhcp_manager_start_client_def priv1_def Let_def
            add_client_def obj_def t2_def t3_def nm_dhcp_client_start_def)
      moreover have "one_client_per_iface (priv1\<lparr>clients := t3\<rparr>)"
        using t2 start_table [of t2 client "Some helper"]
        by (simp add: one_client_per_iface_def t3_def)
      moreover have "filter (\<lambda>(k, c). iface c = name) t3
          = [(client, \<lparr>obj_type = NM_TYPE_DHCP_DHCLIENT, iface = name, pid = helper\<rparr>)]"
        using start_filter [OF t2(3), of helper] by (simp add: t3_def obj_def)
      ultimately show ?thesis using Some new started by simp
    qed
  qed
qed

lemma dispose_keeps_inv:
  "one_client_per_iface priv \<Longrightarrow> one_client_per_iface (foldl remove_client priv ks)"
  by (induction ks arbitrary: priv) (simp_all add: remove_keeps_inv)

lemma new_inv:
  "nm_dhcp_manager_new DHCLIENT_PATH DHCPCD_PATH client table_ok proxy_ok = Inr priv
   \<Longrightarrow> one_client_per_iface priv"
  by (auto simp: nm_dhcp_manager_new_def one_client_per_iface_def
      split: option.splits if_splits)

lemma reachable_inv: "reachable priv \<Longrightarrow> one_client_per_iface priv"
proof (induction rule: reachable.induct)
  case (new DHCLIENT_PATH DHCPCD_PATH client table_ok proxy_ok priv)
  then show ?case by (rule new_inv)
next
  case (start priv i new_obj started)
  with start_client_post show ?case by blast
next
  case (state_changed priv client new_state)
  then show ?case by (simp add: client_state_changed_def remove_keeps_inv)
next
  case (timeout priv client)
  then show ?case by (simp add: client_timeout_def remove_keeps_inv)
next
  case (disposed priv)
  then show ?case by (simp add: dispose_def dispose_keeps_inv)
qed


text \<open>
  C6. In every state the manager can reach, no two clients of the table are on the
  same interface. And \<^verbatim>\<open>nm_dhcp_manager_start_client\<close> on an interface stops the client
  the table had for it, and leaves in the table, for that interface, the new client
  alone when it could be started and no client when it could not.
\<close>

theorem registry_one_client_per_iface:
  assumes "reachable priv"
  shows "distinct (map (\<lambda>(k, c). iface c) (clients priv))
     \<and> (\<forall>(k, c) \<in> set (clients priv). \<forall>(k', c') \<in> set (clients priv).
          k \<noteq> k' \<longrightarrow> iface c \<noteq> iface c')
     \<and> stopped (nm_dhcp_manager_start_client priv (Some name) new_obj started)
         = map_option fst (get_client_for_iface priv name)
     \<and> filter (\<lambda>(k, c). iface c = name)
         (clients (manager (nm_dhcp_manager_start_client priv (Some name) new_obj started)))
       = (case (new_obj, started) of
            (Some client, Some helper) \<Rightarrow>
              [(client, \<lparr>obj_type = NM_TYPE_DHCP_DHCLIENT, iface = name, pid = helper\<rparr>)]
          | _ \<Rightarrow> [])"
proof -
  from assms have inv: "one_client_per_iface priv" by (rule reachable_inv)
  then have d: "distinct (map (\<lambda>(k, c). iface c) (clients priv))"
    by (simp add: one_client_per_iface_def)
  then have inj: "inj_on (\<lambda>(k, c). iface c) (set (clients priv))"
    by (simp add: distinct_map)
  have pair: "\<forall>(k, c) \<in> set (clients priv). \<forall>(k', c') \<in> set (clients priv).
          k \<noteq> k' \<longrightarrow> iface c \<noteq> iface c'"
  proof (clarify)
    fix k c k' c'
    assume "(k, c) \<in> set (clients priv)" "(k', c') \<in> set (clients priv)" "k \<noteq> k'"
      "iface c = iface c'"
    with inj have "(k, c) = (k', c')"
      by (auto dest!: inj_onD [where x = "(k, c)" and y = "(k', c')"])
    with \<open>k \<noteq> k'\<close> show False by simp
  qed
  from start_client_post [OF inv, of "Some name" new_obj started] d pair
  show ?thesis by simp
qed

theorem registry_one_client_per_iface_witness:
  "reachable eth0_manager
   \<and> stopped (nm_dhcp_manager_start_client eth0_manager (Some ''eth0'') (Some 2) (Some 99))
       = Some 1
   \<and> clients (manager
       (nm_dhcp_manager_start_client eth0_manager (Some ''eth0'') (Some 2) (Some 99)))
     = [(2, \<lparr>obj_type = NM_TYPE_DHCP_DHCLIENT, iface = ''eth0'', pid = 99\<rparr>)]"
  using eth0_manager_reachable
    registry_one_client_per_iface [OF eth0_manager_reachable, of "''eth0''" "Some 2" "Some 99"]
  by (simp add: manager_eval)

end
